theory Spec2Isabelle
  imports Complex_Main "HOL-Library.Log_Nat"
begin

section \<open>Data model\<close>

text \<open>
  The trip record of \<^verbatim>\<open>index.tsx\<close> (table \<^verbatim>\<open>trips\<close>, primary key \<^verbatim>\<open>otp\<close>).
  The timestamp columns are \<^verbatim>\<open>timestamptz\<close>: a non-null value always parses, so a
  present timestamp is modelled by what \<^verbatim>\<open>new Date(s).getTime()\<close> returns for it, the
  number of milliseconds since the epoch; \<^verbatim>\<open>null\<close> is \<open>None\<close>. The column
  \<^verbatim>\<open>driver_id\<close> is written as \<^verbatim>\<open>null\<close> by the issuance form when no driver is named.
\<close>

datatype TripType = City | Outstation

datatype TripStatus = Pending | Started | Ended

record Trip =
  otp :: string
  trip_type :: TripType
  status :: TripStatus
  driver_id :: "string option"
  start_time :: "int option"
  end_time :: "int option"
  amount :: "int option"
  night_charge :: "int option"

text \<open>The object \<^verbatim>\<open>{ total, nightCharge }\<close> returned by the settlement function.\<close>

record Settlement =
  total_val :: int
  nightCharge :: int

section \<open>Settlement calculator (\<^verbatim>\<open>calculateSettlement\<close>, index.tsx)\<close>

text \<open>
  A JavaScript number is a binary64 value, which is a rational; an arithmetic operation
  returns the binary64 value nearest to the exact result, a tie going to the value with
  the even significand. \<open>binary64 x\<close> is that value for the exact result \<open>x\<close>: \<open>x\<close>
  is scaled by the power of two that puts it between \<open>2 ^ 52\<close> and \<open>2 ^ 53\<close>, rounded
  to an integer, and scaled back. Overflow and subnormal values do not arise from
  millisecond instants and these rates, and are not modelled.
\<close>

definition exponent :: "rat \<Rightarrow> int" where
  "exponent x =
     (if 1 \<le> \<bar>x\<bar> then bitlen \<lfloor>\<bar>x\<bar>\<rfloor> - 1 else - bitlen (\<lceil>1 / \<bar>x\<bar>\<rceil> - 1))"

definition round_half_even :: "rat \<Rightarrow> int" where
  "round_half_even x =
     (let n = \<lfloor>x\<rfloor>; r = x - of_int n
      in if r < 1 / 2 then n else if 1 / 2 < r then n + 1 else if even n then n else n + 1)"

definition binary64 :: "rat \<Rightarrow> rat" where
  "binary64 x =
     (if x = 0 then 0
      else let ulp = 2 powi (exponent x - 52)
           in of_int (round_half_even (x / ulp)) * ulp)"

text \<open>
  \<^verbatim>\<open>Math.round\<close> returns the nearest integer, a half going towards plus infinity, and
  \<^verbatim>\<open>Math.ceil\<close> the ceiling; both are exact on their argument.

  In the city branch of the settlement the quotient by the milliseconds of an hour, the
  product by the rate and the sum with the night charge are binary64 operations, and so
  are the quotient and the product in \<^verbatim>\<open>stopTripAndCalculateAmount\<close>. The difference
  of two instants is an integer, which binary64 holds exactly below \<open>2 ^ 53\<close>, and it
  is taken exactly. The outstation branch keeps only the ceiling of its quotient, which
  the rounding of the two divisions does not change for an elapsed time of at most
  \<open>10 ^ 15\<close> milliseconds (\<open>outstation_settlement_binary64\<close> below); the branch is
  written with the exact quotient.
\<close>

definition CITY_RATE :: rat where "CITY_RATE = 150"
definition CITY_MIN_HOURS :: rat where "CITY_MIN_HOURS = 4"
definition CITY_NIGHT_CHARGE_AMOUNT :: int where "CITY_NIGHT_CHARGE_AMOUNT = 200"
definition OUTSTATION_RATE :: int where "OUTSTATION_RATE = 1500"
definition OUTSTATION_BLOCK_HOURS :: rat where "OUTSTATION_BLOCK_HOURS = 12"

definition Math_round :: "rat \<Rightarrow> int" where
  "Math_round x = \<lfloor>x + 1 / 2\<rfloor>"

definition Math_ceil :: "rat \<Rightarrow> int" where
  "Math_ceil x = \<lceil>x\<rceil>"

text \<open>
  \<^verbatim>\<open>Date.prototype.getHours\<close>: the hour of the local wall-clock reading of an instant.
  The local time zone belongs to the environment of the program, so it is a parameter:
  \<open>tza t\<close> is the offset of local time from UTC, in milliseconds, at the instant \<open>t\<close>.
\<close>

definition getHours :: "(int \<Rightarrow> int) \<Rightarrow> int \<Rightarrow> int" where
  "getHours tza t = ((t + tza t) div 3600000) mod 24"

definition calculateSettlement :: "(int \<Rightarrow> int) \<Rightarrow> Trip \<Rightarrow> Settlement" where
  "calculateSettlement tza t =
     (case start_time t of
        None \<Rightarrow> \<lparr>total_val = 0, nightCharge = 0\<rparr>
      | Some start_ms \<Rightarrow>
     (case end_time t of
        None \<Rightarrow> \<lparr>total_val = 0, nightCharge = 0\<rparr>
      | Some end_ms \<Rightarrow>
          let diffMs = end_ms - start_ms;
              hours = (of_int diffMs :: rat) / (1000 * 60 * 60)
          in if trip_type t = City then
               let billableHours = max CITY_MIN_HOURS (binary64 hours);
                   baseFare = binary64 (billableHours * CITY_RATE);
                   endHour = getHours tza end_ms;
                   nc = (if endHour \<ge> 22 then CITY_NIGHT_CHARGE_AMOUNT else 0)
               in \<lparr>total_val = Math_round (binary64 (baseFare + of_int nc)),
                   nightCharge = nc\<rparr>
             else
               let blocks = Math_ceil (hours / OUTSTATION_BLOCK_HOURS)
               in \<lparr>total_val = blocks * OUTSTATION_RATE, nightCharge = 0\<rparr>))"

section \<open>The trip registry\<close>

text \<open>
  The table \<^verbatim>\<open>trips\<close> has the primary key \<^verbatim>\<open>otp\<close>, so it holds at most one row for a
  code: it is a map from codes to rows. The two filtered updates the program sends are
  \<^verbatim>\<open>.update(v).match({ otp: k, status: 'pending' }).select().single()\<close> and
  \<^verbatim>\<open>.update(v).eq('otp', k).select().single()\<close>; each is one statement of the store,
  which answers with the updated row, or with the error \<^verbatim>\<open>PGRST116\<close> when no row matched.
  Failures of the connection are not modelled.
\<close>

type_synonym trips = "string \<rightharpoonup> Trip"

datatype store_error = PGRST116 | Duplicate_key

definition update_match_pending ::
    "string \<Rightarrow> (Trip \<Rightarrow> Trip) \<Rightarrow> trips \<Rightarrow> (store_error + Trip) \<times> trips" where
  "update_match_pending k v db =
     (case db k of
        None \<Rightarrow> (Inl PGRST116, db)
      | Some r \<Rightarrow> if status r = Pending then (Inr (v r), db(k \<mapsto> v r))
                  else (Inl PGRST116, db))"

definition update_eq_otp ::
    "string \<Rightarrow> (Trip \<Rightarrow> Trip) \<Rightarrow> trips \<Rightarrow> (store_error + Trip) \<times> trips" where
  "update_eq_otp k v db =
     (case db k of
        None \<Rightarrow> (Inl PGRST116, db)
      | Some r \<Rightarrow> (Inr (v r), db(k \<mapsto> v r)))"

definition insert_row :: "Trip \<Rightarrow> trips \<Rightarrow> store_error option \<times> trips" where
  "insert_row r db =
     (case db (otp r) of
        None \<Rightarrow> (None, db(otp r \<mapsto> r))
      | Some _ \<Rightarrow> (Some Duplicate_key, db))"

section \<open>Service functions (\<^verbatim>\<open>services/tripService.ts\<close>)\<close>

text \<open>
  The errors the service throws: \<^verbatim>\<open>"Invalid OTP or Trip already in progress/finished."\<close>,
  \<^verbatim>\<open>"Trip data not found."\<close>, \<^verbatim>\<open>"Cannot end a trip that hasn't started."\<close>, and the
  message of a store error passed on. The current time read by \<^verbatim>\<open>new Date()\<close> is the
  argument \<open>now\<close>.
\<close>

datatype trip_error =
    Invalid_OTP
  | Trip_data_not_found
  | Cannot_end
  | Store_message store_error

definition RATE_PER_HOUR :: rat where "RATE_PER_HOUR = 150"
definition MIN_HOURS :: rat where "MIN_HOURS = 4"

definition verifyOtpAndStartTrip ::
    "string \<Rightarrow> string \<Rightarrow> int \<Rightarrow> trips \<Rightarrow> (trip_error + Trip) \<times> trips" where
  "verifyOtpAndStartTrip otpv driverId now db =
     (case update_match_pending otpv
             (\<lambda>r. r\<lparr>status := Started, driver_id := Some driverId, start_time := Some now\<rparr>) db of
        (Inl e, db') \<Rightarrow> (if e = PGRST116 then (Inl Invalid_OTP, db')
                         else (Inl (Store_message e), db'))
      | (Inr data, db') \<Rightarrow> (Inr data, db'))"

text \<open>
  \<^verbatim>\<open>stopTripAndCalculateAmount\<close> sends two statements: it reads the row, and after its
  check it updates the row. \<open>stopTrip_update\<close> is the second statement, with the error
  it passes on. The check \<^verbatim>\<open>trip.status !== 'started' || !trip.start_time\<close> throws one
  error for both of its conditions; the model looks at the start instant first, to have
  its value at hand.
\<close>

definition stopTrip_update ::
    "string \<Rightarrow> int \<Rightarrow> int \<Rightarrow> trips \<Rightarrow> (trip_error + Trip) \<times> trips" where
  "stopTrip_update otpv end_ms finalAmount db =
     (case update_eq_otp otpv
             (\<lambda>r. r\<lparr>status := Ended, end_time := Some end_ms, amount := Some finalAmount\<rparr>) db of
        (Inl e, db') \<Rightarrow> (Inl (Store_message e), db')
      | (Inr data, db') \<Rightarrow> (Inr data, db'))"

definition stopTripAndCalculateAmount ::
    "string \<Rightarrow> int \<Rightarrow> trips \<Rightarrow> (trip_error + Trip) \<times> trips" where
  "stopTripAndCalculateAmount otpv now db =
     (case db otpv of
        None \<Rightarrow> (Inl Trip_data_not_found, db)
      | Some trip \<Rightarrow>
     (case start_time trip of
        None \<Rightarrow> (Inl Cannot_end, db)
      | Some start_ms \<Rightarrow>
          if status trip \<noteq> Started then (Inl Cannot_end, db)
          else
            let diffHours = binary64 ((of_int (now - start_ms) :: rat) / (1000 * 60 * 60));
                billableHours = max MIN_HOURS diffHours;
                finalAmount = Math_round (binary64 (billableHours * RATE_PER_HOUR))
            in stopTrip_update otpv now finalAmount db))"

section \<open>The driver and admin handlers (\<^verbatim>\<open>index.tsx\<close>)\<close>

text \<open>
  The fields of the global \<^verbatim>\<open>state\<close> object that the duty handlers read or write
  (the timer handle only drives the display). The messages put into \<^verbatim>\<open>state.error\<close>:
  \<^verbatim>\<open>"Please enter all 4 digits"\<close>, \<^verbatim>\<open>"Invalid Code. Please check the OTP."\<close>, the
  message of a store error, \<^verbatim>\<open>"OTP required"\<close> and \<^verbatim>\<open>"Cloud Sync Failed: ..."\<close>.
\<close>

datatype ui_error =
    Please_enter_all_4_digits
  | Invalid_Code
  | Error_message store_error
  | OTP_required
  | Cloud_Sync_Failed store_error

record AppState =
  authId :: string
  activeTrip :: "Trip option"
  loading :: bool
  error :: "ui_error option"

text \<open>
  \<^verbatim>\<open>startDuty\<close>: \<open>otpValue\<close> is the text read from the four input fields, joined and
  trimmed.
\<close>

definition startDuty :: "string \<Rightarrow> int \<Rightarrow> AppState \<Rightarrow> trips \<Rightarrow> AppState \<times> trips" where
  "startDuty otpValue now st db =
     (if length otpValue < 4 then (st\<lparr>error := Some Please_enter_all_4_digits\<rparr>, db)
      else
        (case update_match_pending otpValue
                (\<lambda>r. r\<lparr>status := Started, start_time := Some now,
                       driver_id := Some (authId st)\<rparr>) db of
           (Inl e, db') \<Rightarrow> (st\<lparr>error := Some Invalid_Code, loading := False\<rparr>, db')
         | (Inr data, db') \<Rightarrow>
             (st\<lparr>activeTrip := Some data, error := None, loading := False\<rparr>, db')))"

text \<open>
  \<^verbatim>\<open>endDuty\<close>: \<open>confirmed\<close> is the answer to the dialog \<^verbatim>\<open>confirm("Confirm Duty
  Completion?")\<close>. The settlement is computed from the cached \<^verbatim>\<open>state.activeTrip\<close>; the
  update is filtered by the code alone.
\<close>

definition endDuty ::
    "(int \<Rightarrow> int) \<Rightarrow> bool \<Rightarrow> int \<Rightarrow> AppState \<Rightarrow> trips \<Rightarrow> AppState \<times> trips" where
  "endDuty tza confirmed now st db =
     (case activeTrip st of
        None \<Rightarrow> (st, db)
      | Some a \<Rightarrow>
          if \<not> confirmed then (st, db)
          else
            let endTime = now;
                s = calculateSettlement tza (a\<lparr>end_time := Some endTime\<rparr>)
            in (case update_eq_otp (otp a)
                       (\<lambda>r. r\<lparr>status := Ended, end_time := Some endTime,
                              amount := Some (total_val s),
                              night_charge := Some (nightCharge s)\<rparr>) db of
                  (Inl e, db') \<Rightarrow> (st\<lparr>error := Some (Error_message e), loading := False\<rparr>, db')
                | (Inr data, db') \<Rightarrow>
                    (st\<lparr>activeTrip := Some data, error := None, loading := False\<rparr>, db')))"

text \<open>
  The submit handler of the form \<^verbatim>\<open>admin-create-form\<close>, which issues a trip:
  \<open>otpv\<close> is the trimmed code field, \<open>driver\<close> the trimmed driver field or
  \<^verbatim>\<open>null\<close> when it is empty.
\<close>

definition adminCreateTrip ::
    "string \<Rightarrow> string option \<Rightarrow> TripType \<Rightarrow> trips \<Rightarrow> ui_error option \<times> trips" where
  "adminCreateTrip otpv driver tt db =
     (if otpv = [] then (Some OTP_required, db)
      else
        (case insert_row \<lparr>otp = otpv, trip_type = tt, status = Pending, driver_id = driver,
                          start_time = None, end_time = None, amount = None,
                          night_charge = None\<rparr> db of
           (Some e, db') \<Rightarrow> (Some (Cloud_Sync_Failed e), db')
         | (None, db') \<Rightarrow> (None, db')))"

section \<open>Runs of lifecycle calls against one registry\<close>

text \<open>
  A claim, an \<^verbatim>\<open>endDuty\<close> and an issuance each change the registry by a single statement,
  so an interleaving of concurrent calls is a sequence of calls.
  \<^verbatim>\<open>stopTripAndCalculateAmount\<close> reads and then writes: \<open>StopTripAndCalculateAmount\<close>
  is the call with nothing in between, and \<open>StopTrip_update\<close> is its write on its own,
  with an end instant and an amount from an earlier read, for the runs in which other
  calls come between the two. A handler of \<^verbatim>\<open>index.tsx\<close> carries the state of the
  client it runs in, which is arbitrary. The administrative \<^verbatim>\<open>deleteTrip\<close> is not among
  the calls: it removes a row, after which the office can issue the code afresh.
\<close>

datatype call =
    VerifyOtpAndStartTrip string string int
  | StartDuty AppState string int
  | StopTripAndCalculateAmount string int
  | StopTrip_update string int int
  | EndDuty AppState bool int
  | AdminCreateTrip string "string option" TripType

datatype reply =
    Promise "trip_error + Trip"
  | View AppState
  | Form "ui_error option"

fun perform :: "(int \<Rightarrow> int) \<Rightarrow> call \<Rightarrow> trips \<Rightarrow> reply \<times> trips" where
  "perform tza (VerifyOtpAndStartTrip k d now) db =
     (let (r, db') = verifyOtpAndStartTrip k d now db in (Promise r, db'))"
| "perform tza (StartDuty st k now) db =
     (let (st', db') = startDuty k now st db in (View st', db'))"
| "perform tza (StopTripAndCalculateAmount k now) db =
     (let (r, db') = stopTripAndCalculateAmount k now db in (Promise r, db'))"
| "perform tza (StopTrip_update k now amt) db =
     (let (r, db') = stopTrip_update k now amt db in (Promise r, db'))"
| "perform tza (EndDuty st ok now) db =
     (let (st', db') = endDuty tza ok now st db in (View st', db'))"
| "perform tza (AdminCreateTrip k d tt) db =
     (let (e, db') = adminCreateTrip k d tt db in (Form e, db'))"

fun run :: "(int \<Rightarrow> int) \<Rightarrow> call list \<Rightarrow> trips \<Rightarrow> (call \<times> reply) list" where
  "run tza [] db = []"
| "run tza (c # cs) db = (c, fst (perform tza c db)) # run tza cs (snd (perform tza c db))"

fun run_store :: "(int \<Rightarrow> int) \<Rightarrow> call list \<Rightarrow> trips \<Rightarrow> trips" where
  "run_store tza [] db = db"
| "run_store tza (c # cs) db = run_store tza cs (snd (perform tza c db))"

text \<open>
  The code a call presents to the store in a claim statement, if it sends one:
  \<^verbatim>\<open>startDuty\<close> sends none for an input shorter than four characters.
\<close>

fun claim_code :: "call \<Rightarrow> string option" where
  "claim_code (VerifyOtpAndStartTrip k d now) = Some k"
| "claim_code (StartDuty st k now) = (if length k < 4 then None else Some k)"
| "claim_code _ = None"

fun claim_succeeded :: "call \<times> reply \<Rightarrow> bool" where
  "claim_succeeded (VerifyOtpAndStartTrip k d now, Promise (Inr data)) = True"
| "claim_succeeded (StartDuty st k now, View st') = (error st' = None)"
| "claim_succeeded _ = False"

fun claim_rejected :: "call \<times> reply \<Rightarrow> bool" where
  "claim_rejected (VerifyOtpAndStartTrip k d now, Promise (Inl e)) = (e = Invalid_OTP)"
| "claim_rejected (StartDuty st k now, View st') = (error st' = Some Invalid_Code)"
| "claim_rejected _ = False"

definition claimed :: "string \<Rightarrow> call \<times> reply \<Rightarrow> bool" where
  "claimed c e = (claim_code (fst e) = Some c \<and> claim_succeeded e)"

text \<open>
  A code is taken once the registry holds a row for it that is no longer pending.
\<close>

definition taken :: "string \<Rightarrow> trips \<Rightarrow> bool" where
  "taken c db = (case db c of None \<Rightarrow> False | Some r \<Rightarrow> status r \<noteq> Pending)"

text \<open>
  Every row is stored under its own code, which is what makes the map a model of the
  table; and the rows that issuance creates, and that stay pending, carry no start
  instant.
\<close>

definition keyed_by_otp :: "trips \<Rightarrow> bool" where
  "keyed_by_otp db = (\<forall>k r. db k = Some r \<longrightarrow> otp r = k)"

definition pending_unstarted :: "trips \<Rightarrow> bool" where
  "pending_unstarted db = (\<forall>k r. db k = Some r \<longrightarrow> status r = Pending \<longrightarrow> start_time r = None)"

section \<open>Sample data\<close>

text \<open>
  A client whose local time is UTC, a trip row with chosen tier and timestamps, and a
  driver's client that has no trip cached. Instants are milliseconds since the epoch:
  \<open>79200000\<close> is 22:00:00 and \<open>79140000\<close> is 21:59:00 of the first day.
\<close>

definition UTC :: "int \<Rightarrow> int" where
  "UTC t = 0"

definition sample_trip :: "TripType \<Rightarrow> TripStatus \<Rightarrow> int option \<Rightarrow> int option \<Rightarrow> Trip" where
  "sample_trip tt s t0 t1 =
     \<lparr>otp = ''4821'', trip_type = tt, status = s, driver_id = Some ''ravi'',
      start_time = t0, end_time = t1, amount = None, night_charge = None\<rparr>"

definition driver_client :: "string \<Rightarrow> Trip option \<Rightarrow> AppState" where
  "driver_client d a = \<lparr>authId = d, activeTrip = a, loading = False, error = None\<rparr>"

text \<open>
  The state of a client of driver \<open>ravi\<close> while the city trip runs that was started at
  instant 0: the state after \<^verbatim>\<open>startDuty\<close>, and equally the state of any further device
  of the driver, whose \<^verbatim>\<open>findActiveDriverTrip\<close> read the started row. And the row of that
  trip once it was completed after two hours and billed 600.
\<close>

definition on_duty :: AppState where
  "on_duty = driver_client ''ravi'' (Some (sample_trip City Started (Some 0) None))"

definition paid_trip :: Trip where
  "paid_trip = (sample_trip City Ended (Some 0) (Some 7200000))
                 \<lparr>amount := Some 600, night_charge := Some 0\<rparr>"

text \<open>
  A day at the registry: the office issues the code, the driver starts the duty, and ends
  it after two hours.
\<close>

definition duty_day :: "call list" where
  "duty_day =
     [AdminCreateTrip ''4821'' (Some ''ravi'') City,
      StartDuty (driver_client ''ravi'' None) ''4821'' 0,
      EndDuty on_duty True 7200000]"

text \<open>Three drivers present the same code, through both entry points.\<close>

definition rush :: "call list" where
  "rush =
     [VerifyOtpAndStartTrip ''4821'' ''ravi'' 1000,
      StartDuty (driver_client ''asha'' None) ''4821'' 1000,
      VerifyOtpAndStartTrip ''4821'' ''noor'' 1001]"

section \<open>Rounding to binary64\<close>

lemma round_half_even_of_int: "round_half_even (of_int n) = n"
  by (simp add: round_half_even_def)

lemma round_half_even_error: "\<bar>of_int (round_half_even y) - y\<bar> \<le> 1 / 2"
proof -
  have "of_int \<lfloor>y\<rfloor> \<le> y" "y < of_int \<lfloor>y\<rfloor> + 1" by linarith+
  then show ?thesis
    by (auto simp: round_half_even_def Let_def)
qed

lemma round_half_even_le: "y \<le> of_int n \<Longrightarrow> round_half_even y \<le> n"
proof -
  assume a: "y \<le> of_int n"
  have f: "\<lfloor>y\<rfloor> \<le> n" using a by (simp add: floor_le_iff) 
  show ?thesis
  proof (cases "y = of_int n")
    case True then show ?thesis by (simp add: round_half_even_of_int)
  next
    case False
    with a have "y < of_int n" by simp
    then have "\<lfloor>y\<rfloor> < n" by (simp add: floor_less_iff)
    then show ?thesis by (auto simp: round_half_even_def Let_def)
  qed
qed

lemma round_half_even_ge: "of_int n \<le> y \<Longrightarrow> n \<le> round_half_even y"
proof -
  assume a: "of_int n \<le> y"
  then have "n \<le> \<lfloor>y\<rfloor>" by (simp add: le_floor_iff)
  then show ?thesis by (auto simp: round_half_even_def Let_def)
qed

lemma exponent_le:
  assumes "x \<noteq> 0"
  shows "2 powi (exponent x) \<le> \<bar>x\<bar>"
proof (cases "1 \<le> \<bar>x\<bar>")
  case True
  define n where "n = \<lfloor>\<bar>x\<bar>\<rfloor>"
  have n: "0 < n" using True unfolding n_def by linarith
  have b: "1 \<le> bitlen n" using n bitlen_eq_zero_iff[of n] bitlen_nonneg[of n] by linarith
  have "(2::int) ^ nat (bitlen n - 1) \<le> n" using bitlen_bounds[OF n] by simp
  then have "(of_int ((2::int) ^ nat (bitlen n - 1)) :: rat) \<le> of_int n" by (simp only: of_int_le_iff)
  also have "\<dots> \<le> \<bar>x\<bar>" unfolding n_def by linarith
  finally have "(2::rat) ^ nat (bitlen n - 1) \<le> \<bar>x\<bar>" by simp
  moreover have "exponent x = bitlen n - 1" using True by (simp add: exponent_def n_def)
  ultimately show ?thesis using b by (simp add: power_int_def)
next
  case False
  define m where "m = \<lceil>1 / \<bar>x\<bar>\<rceil> - 1"
  define b where "b = bitlen m"
  have x: "0 < \<bar>x\<bar>" "\<bar>x\<bar> < 1" using assms False by auto
  then have "1 < 1 / \<bar>x\<bar>" by (simp add: field_simps)
  then have m: "0 < m" unfolding m_def by linarith
  have "m < 2 ^ nat b" using bitlen_bounds[OF m] unfolding b_def by simp
  then have "m + 1 \<le> 2 ^ nat b" by simp
  then have "(of_int (m + 1) :: rat) \<le> of_int (2 ^ nat b)" by (simp only: of_int_le_iff)
  then have "(of_int (m + 1) :: rat) \<le> 2 ^ nat b" by simp
  moreover have "1 / \<bar>x\<bar> \<le> of_int (m + 1)" unfolding m_def by simp
  ultimately have "1 / \<bar>x\<bar> \<le> 2 ^ nat b" by linarith
  then have "1 \<le> 2 ^ nat b * \<bar>x\<bar>" using x by (simp add: field_simps)
  then have "1 / 2 ^ nat b \<le> \<bar>x\<bar>" by (simp add: field_simps)
  moreover have "exponent x = - b" using False by (simp add: exponent_def m_def b_def)
  moreover have "0 \<le> b" unfolding b_def by (rule bitlen_nonneg)
  ultimately show ?thesis by (auto simp: power_int_def field_simps)
qed


lemma ulp_pos: "0 < (2::rat) powi k"
  by (rule zero_less_power_int) simp

lemma exponent_less:
  assumes "x \<noteq> 0" and "\<bar>x\<bar> < 2 powi n" 
  shows "exponent x < n"
proof (rule ccontr)
  assume "\<not> exponent x < n"
  then have "n \<le> exponent x" by simp
  then have "(2::rat) powi n \<le> 2 powi (exponent x)"
    by (intro power_int_increasing) auto
  with exponent_le[OF assms(1)] assms(2) show False by linarith
qed

lemma exponent_le_bound:
  assumes "x \<noteq> 0" and "\<bar>x\<bar> \<le> 2 powi n" 
  shows "exponent x \<le> n"
proof (rule ccontr)
  assume "\<not> exponent x \<le> n"
  then have "n < exponent x" by simp
  then have "(2::rat) powi n < 2 powi (exponent x)"
    by (intro power_int_strict_increasing) auto
  with exponent_le[OF assms(1)] assms(2) show False by linarith
qed

lemma binary64_error:
  "\<bar>binary64 x - x\<bar> \<le> \<bar>x\<bar> / 2 ^ 53"
proof (cases "x = 0")
  case True
  then show ?thesis by (simp add: binary64_def)
next
  case False
  define u :: rat where "u = 2 powi (exponent x - 52)"
  have u: "0 < u" unfolding u_def by (rule ulp_pos)
  have b: "binary64 x = of_int (round_half_even (x / u)) * u"
    using False by (simp add: binary64_def u_def Let_def)
  have "binary64 x - x = (of_int (round_half_even (x / u)) - x / u) * u"
    unfolding b using u by (simp add: field_simps)
  then have "\<bar>binary64 x - x\<bar> = \<bar>of_int (round_half_even (x / u)) - x / u\<bar> * u"
    using u by (simp add: abs_mult)
  also have "\<dots> \<le> (1 / 2) * u"
    using round_half_even_error[of "x / u"] u by (intro mult_right_mono) auto
  finally have 1: "\<bar>binary64 x - x\<bar> \<le> u / 2" by simp
  have "u = 2 powi (exponent x) / 2 powi 52"
    unfolding u_def by (rule power_int_diff) simp
  also have "\<dots> = 2 powi (exponent x) / 2 ^ 52" by simp
  also have "\<dots> \<le> \<bar>x\<bar> / 2 ^ 52"
    using exponent_le[OF False] by (intro divide_right_mono) auto
  finally have "u / 2 \<le> \<bar>x\<bar> / 2 ^ 52 / 2" by simp
  also have "\<dots> = \<bar>x\<bar> / 2 ^ 53" by simp
  finally show ?thesis using 1 by linarith
qed

lemma binary64_of_int:
  assumes "\<bar>n\<bar> < 2 ^ 53"
  shows "binary64 (of_int n) = of_int n"
proof (cases "n = 0")
  case True
  then show ?thesis by (simp add: binary64_def)
next
  case False
  define x :: rat where "x = of_int n"
  have x0: "x \<noteq> 0" using False by (simp add: x_def)
  have "\<bar>x\<bar> < 2 powi 53"
  proof -
    have "(of_int \<bar>n\<bar> :: rat) < of_int (2 ^ 53)" using assms by (simp only: of_int_less_iff)
    then show ?thesis by (simp add: x_def)
  qed
  then have e: "exponent x < 53" using exponent_less[OF x0] by blast
  define k where "k = nat (52 - exponent x)"
  have u: "(2::rat) powi (exponent x - 52) = 1 / 2 ^ k"
  proof -
    have "exponent x - 52 = - int k" using e by (simp add: k_def)
    then show ?thesis by (simp add: power_int_minus_divide)
  qed
  have "x / (1 / 2 ^ k) = of_int (n * 2 ^ k)" by (simp add: x_def)
  then have "round_half_even (x / (1 / 2 ^ k)) = n * 2 ^ k"
    by (simp only: round_half_even_of_int)
  then have "binary64 x = of_int (n * 2 ^ k) * (1 / 2 ^ k)"
    using x0 by (simp add: binary64_def Let_def u)
  then show ?thesis unfolding x_def by simp
qed

lemma binary64_numeral:
  "(numeral k :: int) < 2 ^ 53 \<Longrightarrow> binary64 (numeral k) = numeral k"
  using binary64_of_int [of "numeral k"] by simp

lemma binary64_le_4:
  assumes "x \<le> 4"
  shows "binary64 x \<le> 4"
proof -
  consider "x = 0" | "x < 0" | "0 < x" by linarith
  then show ?thesis
  proof cases
    case 1
    then show ?thesis by (simp add: binary64_def)
  next
    case 2
    define u :: rat where "u = 2 powi (exponent x - 52)"
    have u: "0 < u" unfolding u_def by (rule ulp_pos)
    have "x / u \<le> of_int 0" using 2 u by (simp add: field_simps)
    then have "round_half_even (x / u) \<le> 0" by (rule round_half_even_le)
    then have "(of_int (round_half_even (x / u)) :: rat) \<le> 0" by simp
    then have "of_int (round_half_even (x / u)) * u \<le> 0"
      using u by (simp add: mult_le_0_iff)
    then show ?thesis using 2 by (simp add: binary64_def Let_def u_def)
  next
    case 3
    then have x0: "x \<noteq> 0" by simp
    have "\<bar>x\<bar> \<le> 2 powi 2" using 3 assms by simp
    then have e: "exponent x \<le> 2" using exponent_le_bound[OF x0] by blast
    define k where "k = nat (52 - exponent x)"
    have u: "(2::rat) powi (exponent x - 52) = 1 / 2 ^ k"
    proof -
      have "exponent x - 52 = - int k" using e by (simp add: k_def)
      then show ?thesis by (simp add: power_int_minus_divide)
    qed
    have "x / (1 / 2 ^ k) \<le> of_int (4 * 2 ^ k)" using assms by (simp add: field_simps)
    then have "round_half_even (x / (1 / 2 ^ k)) \<le> 4 * 2 ^ k" by (rule round_half_even_le)
    then have "(of_int (round_half_even (x / (1 / 2 ^ k))) :: rat) \<le> of_int (4 * 2 ^ k)"
      by (simp only: of_int_le_iff)
    then have "of_int (round_half_even (x / (1 / 2 ^ k))) * (1 / 2 ^ k) \<le> (4 :: rat)"
      by (simp add: field_simps)
    then show ?thesis using x0 by (simp add: binary64_def Let_def u)
  qed
qed

lemma binary64_ge_4:
  assumes "4 \<le> x"
  shows "4 \<le> binary64 x"
proof -
  have x0: "x \<noteq> 0" and xp: "0 < x" using assms by auto
  show ?thesis
  proof (cases "exponent x \<le> 52")
    case True
    define k where "k = nat (52 - exponent x)"
    have u: "(2::rat) powi (exponent x - 52) = 1 / 2 ^ k"
    proof -
      have "exponent x - 52 = - int k" using True by (simp add: k_def)
      then show ?thesis by (simp add: power_int_minus_divide)
    qed
    have "of_int (4 * 2 ^ k) \<le> x / (1 / 2 ^ k)" using assms by (simp add: field_simps)
    then have "4 * 2 ^ k \<le> round_half_even (x / (1 / 2 ^ k))" by (rule round_half_even_ge)
    then have "(of_int (4 * 2 ^ k) :: rat) \<le> of_int (round_half_even (x / (1 / 2 ^ k)))"
      by (simp only: of_int_le_iff)
    then have "(4 :: rat) \<le> of_int (round_half_even (x / (1 / 2 ^ k))) * (1 / 2 ^ k)"
      by (simp add: field_simps)
    then show ?thesis using x0 by (simp add: binary64_def Let_def u)
  next
    case False
    define u :: rat where "u = 2 powi (exponent x - 52)"
    have "(2::rat) powi 1 \<le> 2 powi (exponent x - 52)"
      using False by (intro power_int_increasing) auto
    then have u2: "2 \<le> u" by (simp add: u_def)
    have "of_int 2 \<le> x / u"
    proof -
      have "2 powi (exponent x) \<le> x" using exponent_le[OF x0] xp by simp
      moreover have "2 powi (exponent x) = u * 2 ^ 52"
      proof -
        have "u = 2 powi (exponent x) / 2 powi 52"
          unfolding u_def by (rule power_int_diff) simp
        then show ?thesis by simp
      qed
      ultimately have "u * 2 ^ 52 \<le> x" by simp
      moreover have "u * 2 \<le> u * 2 ^ 52" using u2 by simp
      ultimately have "u * 2 \<le> x" by linarith
      then show ?thesis using u2 by (simp add: field_simps)
    qed
    then have "2 \<le> round_half_even (x / u)" by (rule round_half_even_ge)
    then have "(2::rat) \<le> of_int (round_half_even (x / u))" by linarith
    then have "2 * 2 \<le> of_int (round_half_even (x / u)) * u"
      using u2 by (intro mult_mono) auto
    then show ?thesis using x0 by (simp add: binary64_def Let_def u_def)
  qed
qed

section \<open>Arithmetic of the fare formulas\<close>

lemma floor_rat_numeral:
  "\<lfloor>(numeral a :: rat) / numeral b\<rfloor> = numeral a div numeral b"
  using floor_divide_of_int_eq [of "numeral a" "numeral b", where ?'a = rat] by simp

lemma round_ms: "Math_round (of_int a / 24000 + of_int n) = (a + 12000) div 24000 + n"
proof -
  have e: "(of_int a :: rat) / 24000 + of_int n + 1 / 2 =
             of_int (a + 12000) / of_int 24000 + of_int n"
    by (simp add: field_simps)
  have "\<lfloor>(of_int (a + 12000) :: rat) / of_int 24000 + of_int n\<rfloor> =
          \<lfloor>(of_int (a + 12000) :: rat) / of_int 24000\<rfloor> + n"
    by (simp only: floor_add_int)
  also have "\<dots> = (a + 12000) div 24000 + n"
    by (simp only: floor_divide_of_int_eq)
  finally show ?thesis unfolding Math_round_def e .
qed

lemma hours_rate:
  "max (4::rat) (of_int d / 3600000) * 150 = of_int (max 14400000 d) / 24000"
proof (cases "14400000 \<le> d")
  case True
  then have "(14400000 :: rat) \<le> of_int d" by linarith
  then have "(4::rat) \<le> of_int d / 3600000" by (simp add: field_simps)
  with True show ?thesis by (simp add: max_def)
next
  case False
  then have "of_int d < (14400000 :: rat)" by linarith
  then have "of_int d / 3600000 < (4::rat)" by (simp add: field_simps)
  with False show ?thesis by (simp add: max_def)
qed

lemma exact_city_amount:
  "Math_round (max 4 (of_int d / 3600000) * 150 + of_int n) = (max 14400000 d + 12000) div 24000 + n"
  unfolding hours_rate by (rule round_ms)

lemma ceil_ms: "Math_ceil (of_int d / (1000 * 60 * 60) / 12) = - ((- d) div 43200000)"
proof -
  have e: "(of_int d :: rat) / (1000 * 60 * 60) / 12 = of_int d / of_int 43200000"
    by simp
  show ?thesis unfolding Math_ceil_def e
    by (simp only: ceiling_divide_eq_div)
qed

lemma block_count:
  assumes "43200000 * k < d" and "d \<le> 43200000 * (k + 1)"
  shows "- ((- d) div 43200000) = k + (1::int)"
proof -
  have "(- d) div 43200000 = - (k + 1)"
  proof (rule int_div_pos_eq)
    show "- d = 43200000 * - (k + 1) + (43200000 * (k + 1) - d)" by simp
    show "0 \<le> 43200000 * (k + 1) - d" using assms by simp
    show "43200000 * (k + 1) - d < 43200000" using assms by simp
  qed
  then show ?thesis by simp
qed

section \<open>The settlement in whole milliseconds\<close>

lemma city_amount_minimum:
  assumes "d \<le> 14400000" and "nc = 0 \<or> nc = 200"
  shows "Math_round (binary64 (binary64 (max 4 (binary64 (of_int d / 3600000)) * 150) + of_int nc))
           = 600 + nc"
proof -
  have "(of_int d :: rat) \<le> 14400000" using assms(1) by linarith
  then have "(of_int d :: rat) / 3600000 \<le> 4" by (simp add: field_simps)
  then have "binary64 (of_int d / 3600000) \<le> 4" by (rule binary64_le_4)
  then have "max 4 (binary64 (of_int d / 3600000)) = 4" by (simp add: max_def)
  then show ?thesis using assms(2)
    by (auto simp: binary64_numeral Math_round_def floor_rat_numeral)
qed

lemma city_amount_no_tie:
  assumes "14400000 \<le> d" and "d \<le> 1000000000000000" and "(d + 12000) mod 24000 \<noteq> 0"
    and "nc = 0 \<or> nc = 200"
  shows "Math_round (binary64 (binary64 (max 4 (binary64 (of_int d / 3600000)) * 150) + of_int nc))
           = (d + 12000) div 24000 + nc"
proof -
  define X :: rat where "X = of_int d / 3600000"
  define q where "q = binary64 X"
  define p where "p = binary64 (q * 150)"
  define s where "s = binary64 (p + of_int nc)"
  define K where "K = (d + 12000) div 24000"
  define r where "r = (d + 12000) mod 24000"
  have dr: "(14400000 :: rat) \<le> of_int d" "(of_int d :: rat) \<le> 1000000000000000"
    using assms(1,2) by linarith+
  have X4: "4 \<le> X" using dr(1) by (simp add: X_def field_simps)
  have Xmax: "X \<le> 300000000" using dr(2) by (simp add: X_def field_simps)
  have q4: "4 \<le> q" unfolding q_def using X4 by (rule binary64_ge_4)
  have eq: "\<bar>q - X\<bar> \<le> X / 2 ^ 53"
    using binary64_error[of X] X4 by (simp add: q_def)
  have ep: "\<bar>p - q * 150\<bar> \<le> q * 150 / 2 ^ 53"
    using binary64_error[of "q * 150"] q4 by (simp add: p_def)
  have nc: "(0::rat) \<le> of_int nc" "(of_int nc :: rat) \<le> 200"
    using assms(4) by auto
  have "q * 150 / 2 ^ 53 \<le> q * 150" using q4 by simp
  then have p0: "0 \<le> p" using ep by linarith
  have es: "\<bar>s - (p + of_int nc)\<bar> \<le> (p + of_int nc) / 2 ^ 53"
    using binary64_error[of "p + of_int nc"] p0 nc by (simp add: s_def)
  have c1: "\<bar>q - X\<bar> \<le> 300000000 / 2 ^ 53"
  proof -
    have "X / 2 ^ 53 \<le> 300000000 / 2 ^ 53"
      using Xmax by (intro divide_right_mono) auto
    with eq show ?thesis by linarith
  qed
  have "(300000000 :: rat) / 2 ^ 53 \<le> 1" by simp
  with c1 Xmax have qmax: "q \<le> 300000001" by linarith
  have c2: "\<bar>p - q * 150\<bar> \<le> 45000000150 / 2 ^ 53"
  proof -
    have "q * 150 \<le> 45000000150" using qmax by linarith
    then have "q * 150 / 2 ^ 53 \<le> 45000000150 / 2 ^ 53"
      by (intro divide_right_mono) auto
    with ep show ?thesis by linarith
  qed
  have "(45000000150 :: rat) / 2 ^ 53 \<le> 1" by simp
  with c2 qmax have pmax: "p \<le> 45000000151" by linarith
  have c3: "\<bar>s - (p + of_int nc)\<bar> \<le> 45000000351 / 2 ^ 53"
  proof -
    have "p + of_int nc \<le> 45000000351" using pmax nc by linarith
    then have "(p + of_int nc) / 2 ^ 53 \<le> 45000000351 / 2 ^ 53"
      by (intro divide_right_mono) auto
    with es show ?thesis by linarith
  qed
  define B :: rat where
    "B = 45000000351 / 2 ^ 53 + 45000000150 / 2 ^ 53 + 150 * (300000000 / 2 ^ 53)"
  have B: "B < 1 / 24000" unfolding B_def by simp
  have b1: "- (300000000 / 2 ^ 53) \<le> q - X" "q - X \<le> 300000000 / 2 ^ 53"
    using c1 by linarith+
  have b2: "- (45000000150 / 2 ^ 53) \<le> p - q * 150" "p - q * 150 \<le> 45000000150 / 2 ^ 53"
    using c2 by linarith+
  have b3: "- (45000000351 / 2 ^ 53) \<le> s - (p + of_int nc)"
    "s - (p + of_int nc) \<le> 45000000351 / 2 ^ 53"
    using c3 by linarith+
  have close: "X * 150 + of_int nc - 1 / 24000 < s" "s < X * 150 + of_int nc + 1 / 24000"
    using b1 b2 b3 B unfolding B_def by linarith+
  have r: "1 \<le> r" "r \<le> 23999"
  proof -
    have "0 \<le> r" "r < 24000" unfolding r_def by simp_all
    moreover have "r \<noteq> 0" using assms(3) by (simp add: r_def)
    ultimately show "1 \<le> r" "r \<le> 23999" by linarith+
  qed
  have "d + 12000 = 24000 * K + r" unfolding K_def r_def by simp
  then have "(of_int (d + 12000) :: rat) = of_int (24000 * K + r)" by (simp only:)
  then have d: "(of_int d :: rat) = 24000 * of_int K + of_int r - 12000" by simp
  have rr: "(1::rat) \<le> of_int r" "(of_int r :: rat) \<le> 23999" using r by linarith+
  have E: "X * 150 + of_int nc + 1 / 2 = of_int K + of_int nc + of_int r / 24000"
    unfolding X_def d by (simp add: field_simps)
  have lo: "of_int (K + nc) \<le> s + 1 / 2"
    using close(1) E rr(1) by simp
  have hi: "s + 1 / 2 < of_int (K + nc) + 1"
    using close(2) E rr(2) by simp
  have "\<lfloor>s + 1 / 2\<rfloor> = K + nc"
    using lo hi by (rule floor_unique)
  moreover have "max 4 q = q" using q4 by (simp add: max_def)
  ultimately show ?thesis
    unfolding Math_round_def s_def p_def q_def X_def K_def by simp
qed


lemma tie_mod:
  assumes "(d + 12000) mod 24000 = 0"
  shows "d mod 24000 = (12000::int)"
proof -
  from assms obtain k where "d + 12000 = 24000 * k" by (auto simp: mod_eq_0_iff_dvd)
  then have "d = 12000 + 24000 * (k - 1)" by simp
  then show ?thesis by (simp only: mod_mult_self2) simp
qed

lemma city_settlement:
  assumes "trip_type t = City" and "start_time t = Some s" and "end_time t = Some e"
  shows "calculateSettlement tza t =
           \<lparr>total_val =
              Math_round (binary64 (binary64 (max 4 (binary64 (of_int (e - s) / 3600000)) * 150)
                                    + of_int (if getHours tza e \<ge> 22 then 200 else 0))),
            nightCharge = (if getHours tza e \<ge> 22 then 200 else 0)\<rparr>"
  using assms unfolding calculateSettlement_def
  by (simp add: Let_def CITY_MIN_HOURS_def CITY_RATE_def CITY_NIGHT_CHARGE_AMOUNT_def)

lemma city_night_charge:
  assumes "trip_type t = City" and "start_time t = Some s" and "end_time t = Some e"
  shows "nightCharge (calculateSettlement tza t) = (if getHours tza e \<ge> 22 then 200 else 0)"
  unfolding city_settlement [OF assms] by simp

lemma city_settlement_minimum:
  assumes "trip_type t = City" and "start_time t = Some s" and "end_time t = Some e"
    and "e - s \<le> 14400000"
  shows "calculateSettlement tza t =
           \<lparr>total_val = 600 + (if getHours tza e \<ge> 22 then 200 else 0),
            nightCharge = (if getHours tza e \<ge> 22 then 200 else 0)\<rparr>"
  unfolding city_settlement [OF assms(1-3)]
  using city_amount_minimum [OF assms(4), of 0] city_amount_minimum [OF assms(4), of 200]
  by simp

lemma city_settlement_no_tie:
  assumes "trip_type t = City" and "start_time t = Some s" and "end_time t = Some e"
    and "14400000 \<le> e - s" and "e - s \<le> 1000000000000000"
    and "(e - s) mod 24000 \<noteq> 12000"
  shows "calculateSettlement tza t =
           \<lparr>total_val = (e - s + 12000) div 24000 + (if getHours tza e \<ge> 22 then 200 else 0),
            nightCharge = (if getHours tza e \<ge> 22 then 200 else 0)\<rparr>"
proof -
  have "(e - s + 12000) mod 24000 \<noteq> 0" using assms(6) tie_mod [of "e - s"] by auto
  then show ?thesis
    unfolding city_settlement [OF assms(1-3)]
    using city_amount_no_tie [OF assms(4,5), of 0] city_amount_no_tie [OF assms(4,5), of 200]
    by simp
qed

lemma outstation_settlement:
  assumes "trip_type t = Outstation" and "start_time t = Some s" and "end_time t = Some e"
  shows "calculateSettlement tza t =
           \<lparr>total_val = - ((- (e - s)) div 43200000) * 1500, nightCharge = 0\<rparr>"
proof -
  have "calculateSettlement tza t =
          \<lparr>total_val = Math_ceil (of_int (e - s) / (1000 * 60 * 60) / 12) * 1500,
           nightCharge = 0\<rparr>"
    using assms unfolding calculateSettlement_def
    by (simp add: Let_def OUTSTATION_BLOCK_HOURS_def OUTSTATION_RATE_def)
  then show ?thesis
    unfolding ceil_ms by simp
qed

text \<open>
  The outstation branch in binary64: for an elapsed time of at most \<open>10 ^ 15\<close>
  milliseconds in either direction, the ceiling of the binary64 quotients is the ceiling
  of the exact ones, so the branch as defined returns what the two binary64 divisions of
  the program give.
\<close>

lemma outstation_binary64:
  assumes "\<bar>d\<bar> \<le> 1000000000000000"
  shows "Math_ceil (binary64 (binary64 (of_int d / 3600000) / 12))
           = Math_ceil (of_int d / 3600000 / 12)"
proof -
  define k where "k = - ((- d) div 43200000)"
  define r where "r = (- d) mod 43200000"
  have "43200000 * ((- d) div 43200000) + (- d) mod 43200000 = - d"
    by (rule mult_div_mod_eq)
  then have d: "d = 43200000 * k - r" unfolding k_def r_def by linarith
  have r: "0 \<le> r" "r < 43200000" unfolding r_def by simp_all
  have kb: "\<bar>k\<bar> \<le> 23148149"
    using assms d r by linarith
  show ?thesis
  proof (cases "r = 0")
    case True
    then have "(of_int d :: rat) / 3600000 = of_int (12 * k)" using d by simp
    moreover have "binary64 (of_int (12 * k)) = of_int (12 * k)"
      using kb by (intro binary64_of_int) simp
    moreover have "binary64 (of_int k) = of_int k"
      using kb by (intro binary64_of_int) simp
    ultimately show ?thesis by simp
  next
    case False
    with r have r1: "1 \<le> r" "r \<le> 43199999" by linarith+
    define X :: rat where "X = of_int d / 3600000"
    define h where "h = binary64 X"
    define y where "y = binary64 (h / 12)"
    have dX: "(of_int d :: rat) = 43200000 * of_int k - of_int r"
      using d by (metis of_int_diff of_int_mult of_int_numeral)
    have rr: "(1::rat) \<le> of_int r" "(of_int r :: rat) \<le> 43199999" using r1 by linarith+
    have "\<bar>of_int d :: rat\<bar> \<le> 1000000000000000"
      using assms by (metis of_int_abs of_int_le_iff of_int_numeral)
    then have Xb: "\<bar>X\<bar> \<le> 300000000" by (simp add: X_def field_simps)
    have eh: "\<bar>h - X\<bar> \<le> \<bar>X\<bar> / 2 ^ 53" unfolding h_def by (rule binary64_error)
    have "\<bar>X\<bar> / 2 ^ 53 \<le> 300000000 / 2 ^ 53"
      using Xb by (intro divide_right_mono) auto
    with eh have c1: "\<bar>h - X\<bar> \<le> 300000000 / 2 ^ 53" by linarith
    have "(300000000 :: rat) / 2 ^ 53 \<le> 1" by simp
    with c1 Xb have hb: "\<bar>h\<bar> \<le> 300000001" by linarith
    have ey: "\<bar>y - h / 12\<bar> \<le> \<bar>h / 12\<bar> / 2 ^ 53" unfolding y_def by (rule binary64_error)
    have "\<bar>h / 12\<bar> \<le> 25000001" using hb by (simp add: field_simps) 
    then have "\<bar>h / 12\<bar> / 2 ^ 53 \<le> 25000001 / 2 ^ 53"
      by (intro divide_right_mono) auto
    with ey have c2: "\<bar>y - h / 12\<bar> \<le> 25000001 / 2 ^ 53" by linarith
    have b1: "- (300000000 / 2 ^ 53) \<le> h - X" "h - X \<le> 300000000 / 2 ^ 53"
      using c1 by linarith+
    have b2: "- (25000001 / 2 ^ 53) \<le> y - h / 12" "y - h / 12 \<le> 25000001 / 2 ^ 53"
      using c2 by linarith+
    have small: "(25000001 :: rat) / 2 ^ 53 + 300000000 / 2 ^ 53 / 12 < 1 / 43200000" by simp
    have E: "X / 12 = of_int k - of_int r / 43200000"
      unfolding X_def dX by (simp add: field_simps)
    have lo: "of_int k - 1 < y" using b1(1) b2(1) small E rr(2) by (simp add: field_simps)
    have hi: "y \<le> of_int k" using b1(2) b2(2) small E rr(1) by (simp add: field_simps)
    have "\<lceil>y\<rceil> = k" using lo hi by (rule ceiling_unique)
    moreover have "\<lceil>X / 12\<rceil> = k"
    proof (rule ceiling_unique)
      show "of_int k - 1 < X / 12" unfolding E using rr(2) by simp
      show "X / 12 \<le> of_int k" unfolding E using rr(1) by simp
    qed
    ultimately show ?thesis unfolding Math_ceil_def y_def h_def X_def by simp
  qed
qed


lemma outstation_settlement_binary64:
  assumes "trip_type t = Outstation" and "start_time t = Some s" and "end_time t = Some e"
    and "\<bar>e - s\<bar> \<le> 1000000000000000"
  shows "calculateSettlement tza t =
           \<lparr>total_val = Math_ceil (binary64 (binary64 (of_int (e - s) / 3600000) / 12)) * 1500,
            nightCharge = 0\<rparr>"
  unfolding outstation_binary64 [OF assms(4)]
  using assms(1-3) unfolding calculateSettlement_def
  by (simp add: Let_def OUTSTATION_BLOCK_HOURS_def OUTSTATION_RATE_def)

lemmas sample_simps = sample_trip_def UTC_def getHours_def driver_client_def

section \<open>Claims about the settlement calculator\<close>

text \<open>
  Claim C7: the settlement function is total, and for every input in which the start or
  the end timestamp is absent it returns exactly \<open>(0, 0)\<close>, whatever the tier.
\<close>

theorem settlement_absent_timestamp:
  "start_time t = None \<or> end_time t = None \<Longrightarrow>
     calculateSettlement tza t = \<lparr>total_val = 0, nightCharge = 0\<rparr>"
  by (auto simp: calculateSettlement_def split: option.splits)

theorem settlement_absent_timestamp_witness:
  "(start_time (sample_trip City Started (Some 0) None) = None
      \<or> end_time (sample_trip City Started (Some 0) None) = None)
   \<and> calculateSettlement UTC (sample_trip City Started (Some 0) None)
        = \<lparr>total_val = 0, nightCharge = 0\<rparr>
   \<and> calculateSettlement UTC (sample_trip Outstation Pending None None)
        = \<lparr>total_val = 0, nightCharge = 0\<rparr>"
  using settlement_absent_timestamp [of "sample_trip City Started (Some 0) None" UTC]
    settlement_absent_timestamp [of "sample_trip Outstation Pending None None" UTC]
  by (simp add: sample_trip_def)

text \<open>
  Claim C3: with both timestamps present, the night surcharge is 200 exactly when the
  tier is city and the local hour of the end instant is at least 22, and 0 otherwise; so
  it is 0 for every outstation trip, and neither the start instant nor the elapsed time
  enters. An end at 22:00:00 sharp carries the surcharge.
\<close>

theorem night_surcharge_rule:
  assumes "start_time t = Some s" and "end_time t = Some e"
  shows "nightCharge (calculateSettlement tza t) =
           (if trip_type t = City \<and> getHours tza e \<ge> 22 then 200 else 0)"
  using assms
  by (simp add: calculateSettlement_def Let_def CITY_NIGHT_CHARGE_AMOUNT_def)

theorem night_surcharge_rule_witness:
  "start_time (sample_trip City Started (Some 0) (Some 79200000)) = Some 0
   \<and> end_time (sample_trip City Started (Some 0) (Some 79200000)) = Some 79200000
   \<and> getHours UTC 79200000 = 22
   \<and> nightCharge (calculateSettlement UTC (sample_trip City Started (Some 0) (Some 79200000))) = 200
   \<and> nightCharge (calculateSettlement UTC (sample_trip City Started (Some 0) (Some 79199999))) = 0
   \<and> nightCharge (calculateSettlement UTC (sample_trip Outstation Started (Some 0) (Some 79200000))) = 0"
  using night_surcharge_rule [of "sample_trip City Started (Some 0) (Some 79200000)" 0 79200000 UTC]
    night_surcharge_rule [of "sample_trip City Started (Some 0) (Some 79199999)" 0 79199999 UTC]
    night_surcharge_rule [of "sample_trip Outstation Started (Some 0) (Some 79200000)" 0 79200000 UTC]
  by (simp add: sample_simps)

text \<open>
  Claim C4 (amended): for every city trip with both timestamps present, an elapsed time
  of at most \<open>10 ^ 15\<close> milliseconds, and an exact fare that is not a half unit (the
  elapsed time is at most four hours, or its milliseconds modulo 24000 are not 12000), the
  billable hours are \<open>max 4 elapsedHours\<close> with the elapsed hours the exact quotient
  of the millisecond difference, and the billed amount is the rounding of
  \<open>billableHours * 150 + nightSurcharge\<close>. A duty of elapsed duration 0 is billed
  \<open>600 + nightSurcharge\<close>: 600 when it ends before 22:00, 800 from 22:00 on. A duty of
  six hours that ends before 22:00 is billed 900.
\<close>

theorem city_fare:
  assumes "trip_type t = City" and "start_time t = Some s" and "end_time t = Some e"
  shows "(e - s \<le> 1000000000000000
            \<and> (e - s \<le> 14400000 \<or> (e - s) mod 24000 \<noteq> 12000) \<longrightarrow>
          total_val (calculateSettlement tza t) =
            Math_round (max 4 (of_int (e - s) / 3600000) * 150
                        + of_int (nightCharge (calculateSettlement tza t))))
       \<and> (e = s \<longrightarrow> total_val (calculateSettlement tza t)
                        = 600 + nightCharge (calculateSettlement tza t))
       \<and> (e = s \<and> getHours tza e < 22 \<longrightarrow> total_val (calculateSettlement tza t) = 600)
       \<and> (e = s \<and> getHours tza e \<ge> 22 \<longrightarrow> total_val (calculateSettlement tza t) = 800)
       \<and> (e - s = 21600000 \<and> getHours tza e < 22 \<longrightarrow>
             total_val (calculateSettlement tza t) = 900)"
proof -
  have low: "total_val (calculateSettlement tza t)
               = Math_round (max 4 (of_int (e - s) / 3600000) * 150
                             + of_int (nightCharge (calculateSettlement tza t)))"
    if "e - s \<le> 14400000"
    unfolding city_settlement_minimum [OF assms that] exact_city_amount using that by simp
  have high: "total_val (calculateSettlement tza t)
                = Math_round (max 4 (of_int (e - s) / 3600000) * 150
                              + of_int (nightCharge (calculateSettlement tza t)))"
    if "14400000 \<le> e - s" and "e - s \<le> 1000000000000000" and "(e - s) mod 24000 \<noteq> 12000"
    unfolding city_settlement_no_tie [OF assms that] exact_city_amount using that(1) by simp
  have formula: "e - s \<le> 1000000000000000
                   \<and> (e - s \<le> 14400000 \<or> (e - s) mod 24000 \<noteq> 12000) \<longrightarrow>
                 total_val (calculateSettlement tza t) =
                   Math_round (max 4 (of_int (e - s) / 3600000) * 150
                               + of_int (nightCharge (calculateSettlement tza t)))"
    using low high by (cases "e - s \<le> 14400000") auto
  have zero: "total_val (calculateSettlement tza t)
                = 600 + nightCharge (calculateSettlement tza t)
              \<and> (getHours tza e < 22 \<longrightarrow> total_val (calculateSettlement tza t) = 600)
              \<and> (getHours tza e \<ge> 22 \<longrightarrow> total_val (calculateSettlement tza t) = 800)"
    if "e = s"
  proof -
    from that have "e - s \<le> 14400000" by simp
    then show ?thesis unfolding city_settlement_minimum [OF assms \<open>e - s \<le> 14400000\<close>] by simp
  qed
  have six: "total_val (calculateSettlement tza t) = 900"
    if "e - s = 21600000" and "getHours tza e < 22"
  proof -
    from that(1) have "14400000 \<le> e - s" "e - s \<le> 1000000000000000"
      "(e - s) mod 24000 \<noteq> 12000" by simp_all
    then show ?thesis
      unfolding city_settlement_no_tie [OF assms \<open>14400000 \<le> e - s\<close>
          \<open>e - s \<le> 1000000000000000\<close> \<open>(e - s) mod 24000 \<noteq> 12000\<close>]
      using that by simp
  qed
  show ?thesis using formula zero six by blast
qed

theorem city_fare_witness:
  "trip_type (sample_trip City Started (Some 57540000) (Some 79140000)) = City
   \<and> getHours UTC 79140000 = 21
   \<and> total_val (calculateSettlement UTC
        (sample_trip City Started (Some 57540000) (Some 79140000))) = 900
   \<and> total_val (calculateSettlement UTC
        (sample_trip City Started (Some 79140000) (Some 79140000))) = 600
   \<and> total_val (calculateSettlement UTC
        (sample_trip City Started (Some 79200000) (Some 79200000))) = 800
   \<and> total_val (calculateSettlement UTC
        (sample_trip City Started (Some 0) (Some 15000001))) = 625
   \<and> total_val (calculateSettlement UTC
        (sample_trip City Started (Some 65400000) (Some 83400000))) = 950"
  using city_fare [of "sample_trip City Started (Some 57540000) (Some 79140000)"
                      57540000 79140000 UTC]
    city_fare [of "sample_trip City Started (Some 79140000) (Some 79140000)"
                  79140000 79140000 UTC]
    city_fare [of "sample_trip City Started (Some 79200000) (Some 79200000)"
                  79200000 79200000 UTC]
    city_fare [of "sample_trip City Started (Some 0) (Some 15000001)" 0 15000001 UTC]
    city_fare [of "sample_trip City Started (Some 65400000) (Some 83400000)"
                  65400000 83400000 UTC]
    city_night_charge [of "sample_trip City Started (Some 0) (Some 15000001)" 0 15000001 UTC]
    city_night_charge [of "sample_trip City Started (Some 65400000) (Some 83400000)"
                          65400000 83400000 UTC]
    exact_city_amount [of 15000001 0] exact_city_amount [of 18000000 200]
  by (simp add: sample_simps)

text \<open>
  The claim as written bills every city duty of elapsed duration 0 the amount 600, and
  every city duty the rounding of the exact \<open>billableHours * 150 + nightSurcharge\<close>.
  A city duty that starts and ends at 22:00:00 is billed 800. A city duty of 4 h 07 min
  that ends at 04:07 has the exact fare 617.5, of which the rounding is 618; the binary64
  product is just below 617.5, and the duty is billed 617. And beyond the bound on the
  elapsed time the two part also away from the half units: for 6840266557235999
  milliseconds the rounding of the exact fare is 285011106551 and the billed amount
  285011106552.
\<close>

theorem city_fare_counterexample:
  "total_val (calculateSettlement UTC
     (sample_trip City Started (Some 79200000) (Some 79200000))) = 800
   \<and> total_val (calculateSettlement UTC
        (sample_trip City Started (Some 0) (Some 14820000))) = 617
   \<and> Math_round (max 4 (of_int (14820000 - 0) / 3600000) * 150
        + of_int (nightCharge (calculateSettlement UTC
            (sample_trip City Started (Some 0) (Some 14820000))))) = 618
   \<and> total_val (calculateSettlement UTC
        (sample_trip City Started (Some 0) (Some 6840266557235999))) = 285011106552
   \<and> Math_round (max 4 (of_int (6840266557235999 - 0) / 3600000) * 150
        + of_int (nightCharge (calculateSettlement UTC
            (sample_trip City Started (Some 0) (Some 6840266557235999))))) = 285011106551
   \<and> (6840266557235999 - 0) mod 24000 \<noteq> (12000 :: int)"
  by code_simp

text \<open>
  Claim C5 (amended): an outstation trip of elapsed duration 0 (start equal to end, both
  present) is billed no block: the settlement is \<open>(0, 0)\<close>.
\<close>

theorem zero_duration_outstation:
  assumes "trip_type t = Outstation" and "start_time t = Some s" and "end_time t = Some s"
  shows "calculateSettlement tza t = \<lparr>total_val = 0, nightCharge = 0\<rparr>"
  unfolding outstation_settlement [OF assms] by simp

theorem zero_duration_outstation_witness:
  "trip_type (sample_trip Outstation Started (Some 5000) (Some 5000)) = Outstation
   \<and> start_time (sample_trip Outstation Started (Some 5000) (Some 5000)) = Some 5000
   \<and> end_time (sample_trip Outstation Started (Some 5000) (Some 5000)) = Some 5000
   \<and> calculateSettlement UTC (sample_trip Outstation Started (Some 5000) (Some 5000))
       = \<lparr>total_val = 0, nightCharge = 0\<rparr>"
  using zero_duration_outstation [of "sample_trip Outstation Started (Some 5000) (Some 5000)"
                                     5000 UTC]
  by (simp add: sample_trip_def)

text \<open>
  The claim as written bills an outstation trip of elapsed duration 0 one block, 1500.
  The ceiling of 0 is 0, and the amount is 0.
\<close>

theorem zero_duration_outstation_counterexample:
  "trip_type (sample_trip Outstation Started (Some 5000) (Some 5000)) = Outstation
   \<and> start_time (sample_trip Outstation Started (Some 5000) (Some 5000))
       = end_time (sample_trip Outstation Started (Some 5000) (Some 5000))
   \<and> total_val (calculateSettlement UTC
        (sample_trip Outstation Started (Some 5000) (Some 5000))) = 0
   \<and> total_val (calculateSettlement UTC
        (sample_trip Outstation Started (Some 5000) (Some 5000))) \<noteq> 1500"
  by (simp add: sample_trip_def calculateSettlement_def Let_def OUTSTATION_BLOCK_HOURS_def
        OUTSTATION_RATE_def Math_ceil_def)

text \<open>
  Claim C6: for every outstation trip with both timestamps present and positive elapsed
  time, the billed amount is \<open>ceil (elapsedHours / 12) * 1500\<close>. Any fraction of a
  block of twelve hours counts as a full block: an elapsed time above \<open>k\<close> blocks and up
  to \<open>k + 1\<close> blocks is billed \<open>k + 1\<close> blocks, so the amount is at least 1500; twelve
  hours sharp are billed 1500 and thirteen hours 3000.
\<close>

theorem outstation_blocks:
  assumes "trip_type t = Outstation" and "start_time t = Some s" and "end_time t = Some e"
    and "s < e"
  shows "total_val (calculateSettlement tza t)
           = \<lceil>(of_int (e - s) :: rat) / 3600000 / 12\<rceil> * 1500
       \<and> (43200000 * k < e - s \<and> e - s \<le> 43200000 * (k + 1) \<longrightarrow>
             total_val (calculateSettlement tza t) = (k + 1) * 1500)
       \<and> 1500 \<le> total_val (calculateSettlement tza t)
       \<and> (e - s = 12 * 3600000 \<longrightarrow> total_val (calculateSettlement tza t) = 1500)
       \<and> (e - s = 13 * 3600000 \<longrightarrow> total_val (calculateSettlement tza t) = 3000)"
proof -
  have formula: "total_val (calculateSettlement tza t)
                   = \<lceil>(of_int (e - s) :: rat) / 3600000 / 12\<rceil> * 1500"
    using assms(1-3) unfolding calculateSettlement_def
    by (simp add: Let_def OUTSTATION_BLOCK_HOURS_def OUTSTATION_RATE_def Math_ceil_def)
  have blocks: "total_val (calculateSettlement tza t) = (j + 1) * 1500"
    if "43200000 * j < e - s" and "e - s \<le> 43200000 * (j + 1)" for j
    unfolding outstation_settlement [OF assms(1-3)] using block_count [OF that] by simp
  have "0 < - ((- (e - s)) div 43200000)"
    using \<open>s < e\<close> by (simp add: neg_imp_zdiv_neg_iff)
  then have least: "1500 \<le> total_val (calculateSettlement tza t)"
    unfolding outstation_settlement [OF assms(1-3)] by simp
  show ?thesis
    using formula blocks [of k] blocks [of 0] blocks [of 1] least by simp
qed

theorem outstation_blocks_witness:
  "trip_type (sample_trip Outstation Started (Some 1000) (Some 43201000)) = Outstation
   \<and> (1000::int) < 43201000
   \<and> total_val (calculateSettlement UTC
        (sample_trip Outstation Started (Some 1000) (Some 43201000))) = 1500
   \<and> total_val (calculateSettlement UTC
        (sample_trip Outstation Started (Some 1000) (Some 46801000))) = 3000
   \<and> total_val (calculateSettlement UTC
        (sample_trip Outstation Started (Some 1000) (Some 43201001))) = 3000
   \<and> total_val (calculateSettlement UTC
        (sample_trip Outstation Started (Some 1000) (Some 1001))) = 1500"
  using outstation_blocks [where t = "sample_trip Outstation Started (Some 1000) (Some 43201000)"
                             and s = 1000 and e = 43201000 and k = 0 and tza = UTC]
    outstation_blocks [where t = "sample_trip Outstation Started (Some 1000) (Some 46801000)"
                         and s = 1000 and e = 46801000 and k = 1 and tza = UTC]
    outstation_blocks [where t = "sample_trip Outstation Started (Some 1000) (Some 43201001)"
                         and s = 1000 and e = 43201001 and k = 1 and tza = UTC]
    outstation_blocks [where t = "sample_trip Outstation Started (Some 1000) (Some 1001)"
                         and s = 1000 and e = 1001 and k = 0 and tza = UTC]
  by (simp add: sample_trip_def)

text \<open>
  Claim C10: when the end instant is earlier than the start instant (both present), the
  settlement is computed all the same, without a rejection and without clamping the
  elapsed time to zero. For the city tier the minimum of four hours takes over and the
  amount is the rounding of \<open>600 + nightSurcharge\<close>; for the outstation tier the number
  of blocks is the ceiling of a negative number, so the amount is at most 0.
\<close>

theorem negative_elapsed:
  assumes "start_time t = Some s" and "end_time t = Some e" and "e < s"
  shows "(trip_type t = City \<longrightarrow>
            total_val (calculateSettlement tza t)
              = Math_round (600 + of_int (nightCharge (calculateSettlement tza t)))
          \<and> total_val (calculateSettlement tza t)
              = 600 + nightCharge (calculateSettlement tza t))
       \<and> (trip_type t = Outstation \<longrightarrow>
            total_val (calculateSettlement tza t)
              = \<lceil>(of_int (e - s) :: rat) / 3600000 / 12\<rceil> * 1500
          \<and> total_val (calculateSettlement tza t) \<le> 0)"
proof (cases "trip_type t")
  case City
  have "Math_round (600 + of_int n) = 600 + n" for n :: int
    using round_ms [of 14400000 n] by simp
  moreover from \<open>e < s\<close> have "e - s \<le> 14400000" by simp
  then have "total_val (calculateSettlement tza t)
               = 600 + nightCharge (calculateSettlement tza t)"
    unfolding city_settlement_minimum [OF City assms(1,2) \<open>e - s \<le> 14400000\<close>] by simp
  ultimately show ?thesis using City by simp
next
  case Outstation
  have "total_val (calculateSettlement tza t)
          = \<lceil>(of_int (e - s) :: rat) / 3600000 / 12\<rceil> * 1500"
    using Outstation assms(1,2) unfolding calculateSettlement_def
    by (simp add: Let_def OUTSTATION_BLOCK_HOURS_def OUTSTATION_RATE_def Math_ceil_def)
  moreover have "0 \<le> (- (e - s)) div 43200000"
    using \<open>e < s\<close> by simp
  then have "total_val (calculateSettlement tza t) \<le> 0"
    unfolding outstation_settlement [OF Outstation assms(1,2)] by simp
  ultimately show ?thesis using Outstation by simp
qed

theorem negative_elapsed_witness:
  "start_time (sample_trip City Started (Some 79200000) (Some 75600000)) = Some 79200000
   \<and> (75600000::int) < 79200000
   \<and> calculateSettlement UTC (sample_trip City Started (Some 79200000) (Some 75600000))
       = \<lparr>total_val = 600, nightCharge = 0\<rparr>
   \<and> total_val (calculateSettlement UTC
        (sample_trip Outstation Started (Some 79200000) (Some 75600000))) \<le> 0
   \<and> total_val (calculateSettlement UTC
        (sample_trip Outstation Started (Some 46800000) (Some 0))) = - 1500"
  using negative_elapsed [where t = "sample_trip City Started (Some 79200000) (Some 75600000)"
                            and s = 79200000 and e = 75600000 and tza = UTC]
    negative_elapsed [where t = "sample_trip Outstation Started (Some 79200000) (Some 75600000)"
                        and s = 79200000 and e = 75600000 and tza = UTC]
    city_night_charge [where t = "sample_trip City Started (Some 79200000) (Some 75600000)"
                         and s = 79200000 and e = 75600000 and tza = UTC]
    outstation_settlement [where t = "sample_trip Outstation Started (Some 46800000) (Some 0)"
                             and s = 46800000 and e = 0 and tza = UTC]
  by (simp add: sample_simps)

section \<open>The lifecycle: helper facts\<close>

lemmas op_defs = verifyOtpAndStartTrip_def startDuty_def stopTripAndCalculateAmount_def
  stopTrip_update_def endDuty_def adminCreateTrip_def update_match_pending_def update_eq_otp_def insert_row_def

text \<open>The transition of a claim, and what a refused claim leaves behind.\<close>

lemma claim_transition:
  assumes "db c = Some r" and "status r = Pending"
  shows "verifyOtpAndStartTrip c d now db =
           (Inr (r\<lparr>status := Started, driver_id := Some d, start_time := Some now\<rparr>),
            db(c \<mapsto> r\<lparr>status := Started, driver_id := Some d, start_time := Some now\<rparr>))"
  using assms by (simp add: op_defs)

lemma claim_refused:
  assumes "db c = None \<or> (db c = Some r \<and> status r \<noteq> Pending)"
  shows "verifyOtpAndStartTrip c d now db = (Inl Invalid_OTP, db)"
  using assms by (auto simp: op_defs)

lemma startDuty_transition:
  assumes "4 \<le> length c" and "db c = Some r" and "status r = Pending"
  shows "startDuty c now st db =
           (st\<lparr>activeTrip :=
                 Some (r\<lparr>status := Started, start_time := Some now, driver_id := Some (authId st)\<rparr>),
               error := None, loading := False\<rparr>,
            db(c \<mapsto> r\<lparr>status := Started, start_time := Some now, driver_id := Some (authId st)\<rparr>))"
  using assms by (simp add: op_defs)

lemma startDuty_refused:
  assumes "4 \<le> length c" and "db c = None \<or> (db c = Some r \<and> status r \<noteq> Pending)"
  shows "startDuty c now st db = (st\<lparr>error := Some Invalid_Code, loading := False\<rparr>, db)"
  using assms by (auto simp: op_defs)

text \<open>No call makes a taken code pending again, and a claim succeeds on a free code only.\<close>

lemma perform_keeps_taken:
  "taken c db \<Longrightarrow> taken c (snd (perform tza cl db))"
  by (cases cl)
     (auto simp: taken_def op_defs Let_def split: option.splits if_splits prod.splits sum.splits)

lemma claimed_takes:
  assumes "claimed c (cl, fst (perform tza cl db))"
  shows "\<not> taken c db \<and> taken c (snd (perform tza cl db))"
  using assms
  by (cases cl)
     (auto simp: claimed_def taken_def op_defs Let_def
           split: option.splits if_splits prod.splits sum.splits)

lemma no_claim_when_taken:
  "taken c db \<Longrightarrow> filter (claimed c) (run tza cls db) = []"
proof (induction cls arbitrary: db)
  case Nil
  then show ?case by simp
next
  case (Cons cl cls)
  from Cons.prems have "\<not> claimed c (cl, fst (perform tza cl db))"
    using claimed_takes by blast
  moreover have "filter (claimed c) (run tza cls (snd (perform tza cl db))) = []"
    using Cons.IH perform_keeps_taken [OF Cons.prems] by blast
  ultimately show ?case by simp
qed

lemma one_claim_per_run: "length (filter (claimed c) (run tza cls db)) \<le> 1"
proof (induction cls arbitrary: db)
  case Nil
  then show ?case by simp
next
  case (Cons cl cls)
  show ?case
  proof (cases "claimed c (cl, fst (perform tza cl db))")
    case True
    then have "taken c (snd (perform tza cl db))"
      using claimed_takes by blast
    then have "filter (claimed c) (run tza cls (snd (perform tza cl db))) = []"
      by (rule no_claim_when_taken)
    with True show ?thesis by simp
  next
    case False
    then show ?thesis using Cons.IH by simp
  qed
qed

lemma claim_outcome:
  "claim_code cl = Some c \<Longrightarrow>
     claim_succeeded (cl, fst (perform tza cl db)) \<or> claim_rejected (cl, fst (perform tza cl db))"
  by (cases cl)
     (auto simp: op_defs Let_def split: option.splits if_splits prod.splits sum.splits)

lemma claims_succeed_or_are_rejected:
  "e \<in> set (run tza cls db) \<Longrightarrow> claim_code (fst e) = Some c \<Longrightarrow>
     claim_succeeded e \<or> claim_rejected e"
proof (induction cls arbitrary: db)
  case Nil
  then show ?case by simp
next
  case (Cons cl cls)
  then show ?case using claim_outcome [of cl c tza db] by auto
qed

text \<open>What the settlement reads of a trip.\<close>

lemma settlement_reads:
  "trip_type a = trip_type r \<Longrightarrow> start_time a = start_time r \<Longrightarrow>
     calculateSettlement tza (a\<lparr>end_time := x\<rparr>) = calculateSettlement tza (r\<lparr>end_time := x\<rparr>)"
  by (cases "start_time r"; cases x; simp add: calculateSettlement_def)

text \<open>
  \<^verbatim>\<open>endDuty\<close> stores the settlement of the trip the client holds at the end instant it
  persists, which is the settlement of the stored row when the two agree on tier and
  start instant.
\<close>

lemma endDuty_persists_settlement:
  assumes "activeTrip st = Some a" and "db (otp a) = Some r"
    and "trip_type a = trip_type r" and "start_time a = start_time r"
  shows "snd (endDuty tza True now st db) =
           db(otp a \<mapsto> r\<lparr>status := Ended, end_time := Some now,
                 amount := Some (total_val (calculateSettlement tza (r\<lparr>end_time := Some now\<rparr>))),
                 night_charge :=
                   Some (nightCharge (calculateSettlement tza (r\<lparr>end_time := Some now\<rparr>)))\<rparr>)"
  using assms settlement_reads [of a r tza "Some now"]
  by (simp add: endDuty_def update_eq_otp_def Let_def)

text \<open>
  The service at a half unit: for a started trip of 4 h 07 min the exact product is 617.5;
  the binary64 product is just below it, and the amount stored is 617.
\<close>

lemma stopTrip_half_unit_sample:
  "map_option amount
     (snd (stopTripAndCalculateAmount ''4821'' 14820000
             [''4821'' \<mapsto> sample_trip City Started (Some 0) None]) ''4821'')
     = Some (Some 617)"
proof -
  have "Math_round (binary64 (max 4 (binary64 (14820000 / 3600000)) * 150)) = 617"
    by code_simp
  then show ?thesis
    by (simp add: sample_simps op_defs MIN_HOURS_def RATE_PER_HOUR_def)
qed

text \<open>
  The service refuses to end a trip that is not started, and leaves the registry as it is.
\<close>

lemma stopTrip_refuses_unless_started:
  "db k = Some r \<Longrightarrow> status r \<noteq> Started \<Longrightarrow>
     stopTripAndCalculateAmount k now db = (Inl Cannot_end, db)"
  by (simp add: op_defs split: option.splits)

text \<open>
  No call touches the code or the tier of a row, and the start instant of a row that has
  left the pending state stays as it is.
\<close>

lemma perform_keeps_code_and_tier:
  "db k = Some r \<Longrightarrow>
     \<exists>r'. snd (perform tza cl db) k = Some r' \<and> otp r' = otp r \<and> trip_type r' = trip_type r"
  by (cases cl)
     (auto simp: op_defs Let_def split: option.splits if_splits prod.splits sum.splits)

lemma perform_keeps_start_time:
  "db k = Some r \<Longrightarrow> status r \<noteq> Pending \<Longrightarrow>
     \<exists>r'. snd (perform tza cl db) k = Some r' \<and> start_time r' = start_time r
          \<and> status r' \<noteq> Pending"
  by (cases cl)
     (auto simp: op_defs Let_def split: option.splits if_splits prod.splits sum.splits)

lemma perform_keeps_keyed_by_otp:
  "keyed_by_otp db \<Longrightarrow> keyed_by_otp (snd (perform tza cl db))"
  unfolding keyed_by_otp_def
  by (cases cl)
     (auto simp: op_defs Let_def split: option.splits if_splits prod.splits sum.splits)

lemma perform_keeps_pending_unstarted:
  "pending_unstarted db \<Longrightarrow> pending_unstarted (snd (perform tza cl db))"
  unfolding pending_unstarted_def
  by (cases cl)
     (auto simp: op_defs Let_def split: option.splits if_splits prod.splits sum.splits)

lemma start_time_once_set:
  assumes "pending_unstarted db" and "db k = Some r" and "start_time r = Some s"
  shows "\<exists>r'. snd (perform tza cl db) k = Some r' \<and> start_time r' = Some s"
proof -
  from assms have "status r \<noteq> Pending"
    unfolding pending_unstarted_def by auto
  with assms(2,3) show ?thesis
    using perform_keeps_start_time [of db k r tza cl] by auto
qed

section \<open>Claims about the lifecycle\<close>

text \<open>
  Claim C1: for every code at most one claim ever succeeds. A claim reaches the registry
  as one conditional update guarded by the pending state: on a pending row it sets the
  status to started together with the driver and the start instant, and on any other row,
  or none, it is refused with the invalid-code error and changes nothing. So in every run
  of calls against the registry, in whatever order, at most one of the claims that
  present the code \<open>c\<close> succeeds, and every other one of them is refused with the
  invalid-code error.
\<close>

theorem claim_at_most_once:
  "length (filter (claimed c) (run tza calls db)) \<le> 1
   \<and> (\<forall>e \<in> set (run tza calls db).
         claim_code (fst e) = Some c \<longrightarrow> claim_succeeded e \<or> claim_rejected e)
   \<and> (db c = Some r \<and> status r = Pending \<longrightarrow>
         verifyOtpAndStartTrip c d now db =
           (Inr (r\<lparr>status := Started, driver_id := Some d, start_time := Some now\<rparr>),
            db(c \<mapsto> r\<lparr>status := Started, driver_id := Some d, start_time := Some now\<rparr>)))
   \<and> (db c = None \<or> (db c = Some r \<and> status r \<noteq> Pending) \<longrightarrow>
         verifyOtpAndStartTrip c d now db = (Inl Invalid_OTP, db))
   \<and> (4 \<le> length c \<and> db c = Some r \<and> status r = Pending \<longrightarrow>
         startDuty c now st db =
           (st\<lparr>activeTrip :=
                 Some (r\<lparr>status := Started, start_time := Some now, driver_id := Some (authId st)\<rparr>),
               error := None, loading := False\<rparr>,
            db(c \<mapsto> r\<lparr>status := Started, start_time := Some now, driver_id := Some (authId st)\<rparr>)))
   \<and> (4 \<le> length c \<and> (db c = None \<or> (db c = Some r \<and> status r \<noteq> Pending)) \<longrightarrow>
         startDuty c now st db = (st\<lparr>error := Some Invalid_Code, loading := False\<rparr>, db))"
  using one_claim_per_run [of c tza calls db]
    claims_succeed_or_are_rejected [of _ tza calls db c]
    claim_transition [of db c r d now] claim_refused [of db c r d now]
    startDuty_transition [of c db r now st] startDuty_refused [of c db r now st]
  by blast

theorem claim_at_most_once_witness:
  "map (claimed ''4821'') (run UTC rush [''4821'' \<mapsto> sample_trip City Pending None None])
     = [True, False, False]
   \<and> map claim_rejected (run UTC rush [''4821'' \<mapsto> sample_trip City Pending None None])
     = [False, True, True]
   \<and> length (filter (claimed ''4821'')
        (run UTC rush [''4821'' \<mapsto> sample_trip City Pending None None])) \<le> 1
   \<and> verifyOtpAndStartTrip ''4821'' ''ravi'' 1000
        [''4821'' \<mapsto> sample_trip City Pending None None]
     = (Inr (sample_trip City Started (Some 1000) None),
        [''4821'' \<mapsto> sample_trip City Started (Some 1000) None])
   \<and> verifyOtpAndStartTrip ''4821'' ''noor'' 1001
        [''4821'' \<mapsto> sample_trip City Started (Some 1000) None]
     = (Inl Invalid_OTP, [''4821'' \<mapsto> sample_trip City Started (Some 1000) None])
   \<and> startDuty ''4821'' 1000 (driver_client ''ravi'' None)
        [''4821'' \<mapsto> sample_trip City Pending None None]
     = (driver_client ''ravi'' (Some (sample_trip City Started (Some 1000) None)),
        [''4821'' \<mapsto> sample_trip City Started (Some 1000) None])
   \<and> startDuty ''4821'' 1001 (driver_client ''asha'' None)
        [''4821'' \<mapsto> sample_trip City Started (Some 1000) None]
     = ((driver_client ''asha'' None)\<lparr>error := Some Invalid_Code\<rparr>,
        [''4821'' \<mapsto> sample_trip City Started (Some 1000) None])"
  using claim_at_most_once [where c = "''4821''" and tza = UTC and calls = rush
          and db = "[''4821'' \<mapsto> sample_trip City Pending None None]"
          and r = "sample_trip City Pending None None" and d = "''ravi''" and now = 1000
          and st = "driver_client ''ravi'' None"]
    claim_at_most_once [where c = "''4821''" and tza = UTC and calls = rush
          and db = "[''4821'' \<mapsto> sample_trip City Started (Some 1000) None]"
          and r = "sample_trip City Started (Some 1000) None" and d = "''noor''" and now = 1001
          and st = "driver_client ''asha'' None"]
  by (simp add: rush_def claimed_def op_defs sample_simps)

text \<open>
  Claim C2 (the program departs from it): a completion should store the settlement of the
  trip's tier for its start instant and the end instant it persists. \<^verbatim>\<open>endDuty\<close> does
  so, for the trip the client holds (\<open>endDuty_persists_settlement\<close>).
  \<^verbatim>\<open>stopTripAndCalculateAmount\<close> never looks at the tier and never writes a night
  charge: it ends a started outstation trip of thirteen hours with the amount 1950, the
  city fare of thirteen hours, and leaves the night charge unset, where the settlement of
  that trip, which \<^verbatim>\<open>endDuty\<close> stores for it, is 3000 with night charge 0.
\<close>

theorem stopTrip_bills_outstation_as_city:
  "map_option status ([''4821'' \<mapsto> sample_trip Outstation Started (Some 0) None] ''4821'')
     = Some Started
   \<and> snd (stopTripAndCalculateAmount ''4821'' 46800000
          [''4821'' \<mapsto> sample_trip Outstation Started (Some 0) None]) ''4821''
     = Some ((sample_trip Outstation Ended (Some 0) (Some 46800000))\<lparr>amount := Some 1950\<rparr>)
   \<and> calculateSettlement UTC (sample_trip Outstation Started (Some 0) (Some 46800000))
     = \<lparr>total_val = 3000, nightCharge = 0\<rparr>
   \<and> snd (endDuty UTC True 46800000
          (driver_client ''ravi'' (Some (sample_trip Outstation Started (Some 0) None)))
          [''4821'' \<mapsto> sample_trip Outstation Started (Some 0) None]) ''4821''
     = Some ((sample_trip Outstation Ended (Some 0) (Some 46800000))
               \<lparr>amount := Some 3000, night_charge := Some 0\<rparr>)"
  using outstation_settlement [where t = "sample_trip Outstation Started (Some 0) (Some 46800000)"
                                 and s = 0 and e = 46800000 and tza = UTC]
  by (simp add: sample_simps op_defs MIN_HOURS_def RATE_PER_HOUR_def binary64_numeral
        Math_round_def floor_rat_numeral)

text \<open>
  Claim C8 (the program departs from it): completing a trip that is not started should
  fail and leave the stored row alone. \<^verbatim>\<open>stopTripAndCalculateAmount\<close> does so
  (\<open>stopTrip_refuses_unless_started\<close>); the update of \<^verbatim>\<open>endDuty\<close> is filtered by the
  code alone. Here the trip was completed after two hours and billed 600; a client that
  still holds the started row ends it again at ten hours: no error is shown, and the
  stored row is billed anew, 1500.
\<close>

theorem endDuty_rebills_completed_trip:
  "map_option status ([''4821'' \<mapsto> paid_trip] ''4821'') = Some Ended
   \<and> map_option amount ([''4821'' \<mapsto> paid_trip] ''4821'') = Some (Some 600)
   \<and> endDuty UTC True 36000000 on_duty [''4821'' \<mapsto> paid_trip]
     = (on_duty\<lparr>activeTrip := Some (paid_trip\<lparr>end_time := Some 36000000, amount := Some 1500\<rparr>)\<rparr>,
        [''4821'' \<mapsto> paid_trip\<lparr>end_time := Some 36000000, amount := Some 1500\<rparr>])
   \<and> stopTripAndCalculateAmount ''4821'' 36000000 [''4821'' \<mapsto> paid_trip]
     = (Inl Cannot_end, [''4821'' \<mapsto> paid_trip])"
  using city_settlement_no_tie [where t = "sample_trip City Started (Some 0) (Some 36000000)"
                                  and s = 0 and e = 36000000 and tza = UTC]
  by (simp add: sample_simps op_defs on_duty_def paid_trip_def)

text \<open>
  Claim C9 (the program departs from it): a claim writes the status, the driver and the
  start instant, a completion writes the status, the end instant, the amount and the
  night charge; code and tier are never written (\<open>perform_keeps_code_and_tier\<close>), and a
  start instant once set stays (\<open>perform_keeps_start_time\<close>). An end instant once set
  should stay as well, but a second \<^verbatim>\<open>endDuty\<close> writes it again: after the day of the
  registry the end instant of the trip is 7200000, and after one more \<^verbatim>\<open>endDuty\<close> from a
  client that holds the started row it is 36000000.
\<close>

theorem endDuty_overwrites_end_time:
  "map_option end_time (run_store UTC duty_day Map.empty ''4821'') = Some (Some 7200000)
   \<and> map_option status (run_store UTC duty_day Map.empty ''4821'') = Some Ended
   \<and> map_option end_time
        (run_store UTC (duty_day @ [EndDuty on_duty True 36000000]) Map.empty ''4821'')
     = Some (Some 36000000)"
  by (simp add: duty_day_def sample_simps op_defs on_duty_def calculateSettlement_def)

end
